theory Spec2Isabelle
  imports Main "HOL-Library.Sublist"
begin

section \<open>Data model\<close>

text \<open>
  The five armour buckets of \<open>LockableBucketHash\<close>, the keys of the object literal that
  \<open>filterItems\<close> starts from.
\<close>

datatype LockableBucketHash = Helmet | Gauntlets | ChestArmor | LegArmor | ClassArmor

text \<open>
  \<open>filterItems\<close> reads three fields of a \<open>DimItem\<close>: \<open>id\<close> (a string, compared with
  \<open>===\<close> against the ids of the excluded items), \<open>hash\<close> (a number, compared with
  \<open>lockedExoticHash\<close>) and \<open>isExotic\<close>. The field \<open>id\<close> is called \<open>id_item\<close> here,
  since \<open>id\<close> is the identity function of HOL.
\<close>

record DimItem =
  id_item :: string
  hash :: int
  isExotic :: bool

text \<open>A mod is read only through \<open>mod.plug.plugCategoryHash\<close>.\<close>

record DestinyItemPlugDefinition =
  plugCategoryHash :: int

record PluggableInventoryItemDefinition =
  hash_mod :: int
  plug :: DestinyItemPlugDefinition

text \<open>
  \<open>ItemsByBucket\<close>, \<open>PinnedItems\<close> and \<open>ExcludedItems\<close> are objects indexed by bucket hash;
  the source tests each lookup for presence (\<open>if (items[bucket])\<close>, \<open>if (pinnedItem)\<close>,
  \<open>excludedItems[bucket]?.some\<close>), so each is a partial map. An array, even an empty one,
  is truthy in JavaScript: a bucket bound to \<open>[]\<close> is present.
\<close>

type_synonym ItemsByBucket = "LockableBucketHash \<rightharpoonup> DimItem list"
type_synonym PinnedItems = "LockableBucketHash \<rightharpoonup> DimItem"
type_synonym ExcludedItems = "LockableBucketHash \<rightharpoonup> DimItem list"

text \<open>
  The argument object of \<open>filterItems\<close>. The manifest \<open>defs\<close> is only tested for presence,
  and the two energy settings are only handed on to \<open>assignBucketSpecificMods\<close>, so their
  types stay abstract (\<open>'d\<close>, \<open>'e\<close>, \<open>'m\<close>); \<open>undefined\<close> is \<open>None\<close>.
\<close>

record ('d, 'e, 'm) filterItems_args =
  defs :: "'d option"
  items :: "ItemsByBucket option"
  pinnedItems :: PinnedItems
  excludedItems :: ExcludedItems
  lockedMods :: "PluggableInventoryItemDefinition list"
  lockedExoticHash :: "int option"
  lockArmorEnergyType :: "'e option"
  assumeArmorMasterwork :: "'m option"
  searchFilter :: "DimItem \<Rightarrow> bool"

text \<open>
  What \<open>assignBucketSpecificMods\<close> returns, as far as \<open>filterItems\<close> looks at it: the mods
  that could not be placed on the item.
\<close>

record assignment =
  unassigned :: "PluggableInventoryItemDefinition list"

text \<open>
  The names \<open>filterItems\<close> imports from other modules, taken as parameters: the sentinel
  \<open>LOCKED_EXOTIC_NO_EXOTIC\<close>, the energy floor \<open>MIN_LO_ITEM_ENERGY\<close>, the table
  \<open>bucketHashToPlugCategoryHash\<close> and the function \<open>assignBucketSpecificMods\<close>, whose
  arguments are, in this order, \<open>assumeArmorMasterwork\<close>, \<open>lockArmorEnergyType\<close>,
  \<open>minItemEnergy\<close>, \<open>item\<close> and \<open>modsToAssign\<close>. The function is taken as a pure, total
  one, as its TypeScript type says.
\<close>

record ('e, 'm) externals =
  LOCKED_EXOTIC_NO_EXOTIC :: int
  MIN_LO_ITEM_ENERGY :: int
  bucketHashToPlugCategoryHash :: "LockableBucketHash \<Rightarrow> int"
  assignBucketSpecificMods ::
    "'m option \<Rightarrow> 'e option \<Rightarrow> int \<Rightarrow> DimItem \<Rightarrow> PluggableInventoryItemDefinition list
      \<Rightarrow> assignment"

text \<open>
  Modelled from the spec: the constant \<open>LockableBucketHashes\<close> of the module \<open>./types\<close>,
  which is not among the sources. The spec calls it the fixed enumeration of slots; it is
  taken in the order of the keys of \<open>filteredItems\<close>.
\<close>

definition LockableBucketHashes :: "LockableBucketHash list" where
  "LockableBucketHashes = [Helmet, Gauntlets, ChestArmor, LegArmor, ClassArmor]"

section \<open>The filter\<close>

text \<open>
  lodash's \<open>_.groupBy\<close>: each key that occurs is bound to the elements with that key, in
  their order in the list; a key that does not occur is unbound.
\<close>

definition groupBy :: "('a \<Rightarrow> 'k) \<Rightarrow> 'a list \<Rightarrow> ('k \<rightharpoonup> 'a list)" where
  "groupBy f xs =
     (\<lambda>k. let g = filter (\<lambda>x. f x = k) xs in if g = [] then None else Some g)"

definition lockedModMap ::
  "('d, 'e, 'm) filterItems_args \<Rightarrow> (int \<rightharpoonup> PluggableInventoryItemDefinition list)" where
  "lockedModMap a = groupBy (\<lambda>m. plugCategoryHash (plug m)) (lockedMods a)"

text \<open>\<open>lockedModMap[bucketHashToPlugCategoryHash[bucket]] || []\<close>\<close>

definition lockedModsForPlugCategoryHash ::
  "('e, 'm) externals \<Rightarrow> ('d, 'e, 'm) filterItems_args \<Rightarrow> LockableBucketHash
    \<Rightarrow> PluggableInventoryItemDefinition list" where
  "lockedModsForPlugCategoryHash d a bucket =
     (case lockedModMap a (bucketHashToPlugCategoryHash d bucket) of
        None \<Rightarrow> []
      | Some ms \<Rightarrow> ms)"

text \<open>\<open>items[bucket].filter((item) => item.hash === lockedExoticHash)\<close>\<close>

definition exotics :: "('d, 'e, 'm) filterItems_args \<Rightarrow> DimItem list \<Rightarrow> DimItem list" where
  "exotics a bucketItems = filter (\<lambda>item. Some (hash item) = lockedExoticHash a) bucketItems"

text \<open>The cascade of lines 70 to 78: the pinned item, then the locked exotic, then the sentinel.\<close>

definition firstPassFilteredItems ::
  "('e, 'm) externals \<Rightarrow> ('d, 'e, 'm) filterItems_args \<Rightarrow> LockableBucketHash
    \<Rightarrow> DimItem list \<Rightarrow> DimItem list" where
  "firstPassFilteredItems d a bucket bucketItems =
     (case pinnedItems a bucket of
        Some pinnedItem \<Rightarrow> [pinnedItem]
      | None \<Rightarrow>
          if length (exotics a bucketItems) \<noteq> 0 then exotics a bucketItems
          else if lockedExoticHash a = Some (LOCKED_EXOTIC_NO_EXOTIC d)
          then filter (\<lambda>i. \<not> isExotic i) bucketItems
          else bucketItems)"

text \<open>
  \<open>excludedItems[bucket]?.some((excluded) => item.id === excluded.id)\<close>; with no entry for
  the bucket the optional chain gives \<open>undefined\<close>, which \<open>!\<close> turns into \<open>true\<close>.
\<close>

definition isExcluded ::
  "('d, 'e, 'm) filterItems_args \<Rightarrow> LockableBucketHash \<Rightarrow> DimItem \<Rightarrow> bool" where
  "isExcluded a bucket item =
     (case excludedItems a bucket of
        None \<Rightarrow> False
      | Some ex \<Rightarrow> list_ex (\<lambda>excluded. id_item item = id_item excluded) ex)"

text \<open>The call of \<open>assignBucketSpecificMods\<close> at lines 89 to 95, and its \<open>unassigned\<close> mods.\<close>

definition unassignedMods ::
  "('e, 'm) externals \<Rightarrow> ('d, 'e, 'm) filterItems_args \<Rightarrow> LockableBucketHash \<Rightarrow> DimItem
    \<Rightarrow> PluggableInventoryItemDefinition list" where
  "unassignedMods d a bucket item =
     unassigned (assignBucketSpecificMods d (assumeArmorMasterwork a) (lockArmorEnergyType a)
       (MIN_LO_ITEM_ENERGY d) item (lockedModsForPlugCategoryHash d a bucket))"

definition excludedAndModsFilteredItems ::
  "('e, 'm) externals \<Rightarrow> ('d, 'e, 'm) filterItems_args \<Rightarrow> LockableBucketHash
    \<Rightarrow> DimItem list \<Rightarrow> DimItem list" where
  "excludedAndModsFilteredItems d a bucket bucketItems =
     filter (\<lambda>item. \<not> isExcluded a bucket item \<and> length (unassignedMods d a bucket item) = 0)
       (firstPassFilteredItems d a bucket bucketItems)"

definition searchFilteredItems ::
  "('e, 'm) externals \<Rightarrow> ('d, 'e, 'm) filterItems_args \<Rightarrow> LockableBucketHash
    \<Rightarrow> DimItem list \<Rightarrow> DimItem list" where
  "searchFilteredItems d a bucket bucketItems =
     filter (searchFilter a) (excludedAndModsFilteredItems d a bucket bucketItems)"

text \<open>The value assigned to \<open>filteredItems[bucket]\<close> at lines 100 to 102.\<close>

definition filterBucket ::
  "('e, 'm) externals \<Rightarrow> ('d, 'e, 'm) filterItems_args \<Rightarrow> LockableBucketHash
    \<Rightarrow> DimItem list \<Rightarrow> DimItem list" where
  "filterBucket d a bucket bucketItems =
     (if length (searchFilteredItems d a bucket bucketItems) \<noteq> 0
      then searchFilteredItems d a bucket bucketItems
      else excludedAndModsFilteredItems d a bucket bucketItems)"

text \<open>
  The loop \<open>for (const bucket of LockableBucketHashes)\<close>: the state is the object
  \<open>filteredItems\<close>, and a bucket with no entry in \<open>items\<close> leaves it as it is.
\<close>

fun bucketLoop ::
  "('e, 'm) externals \<Rightarrow> ('d, 'e, 'm) filterItems_args \<Rightarrow> ItemsByBucket
    \<Rightarrow> LockableBucketHash list \<Rightarrow> ItemsByBucket \<Rightarrow> ItemsByBucket" where
  "bucketLoop d a its [] filteredItems = filteredItems"
| "bucketLoop d a its (bucket # rest) filteredItems =
     bucketLoop d a its rest
       (case its bucket of
          Some bucketItems \<Rightarrow> filteredItems(bucket \<mapsto> filterBucket d a bucket bucketItems)
        | None \<Rightarrow> filteredItems)"

definition emptyFilteredItems :: ItemsByBucket where
  "emptyFilteredItems =
     [Helmet \<mapsto> [], Gauntlets \<mapsto> [], ChestArmor \<mapsto> [], LegArmor \<mapsto> [], ClassArmor \<mapsto> []]"

definition filterItems ::
  "('e, 'm) externals \<Rightarrow> ('d, 'e, 'm) filterItems_args \<Rightarrow> ItemsByBucket" where
  "filterItems d a =
     (let filteredItems = emptyFilteredItems in
      case items a of
        None \<Rightarrow> filteredItems
      | Some its \<Rightarrow>
          (case defs a of
             None \<Rightarrow> filteredItems
           | Some _ \<Rightarrow> bucketLoop d a its LockableBucketHashes filteredItems))"

section \<open>Sample inputs\<close>

text \<open>
  A small catalog on which the theorems below are instantiated: three helmets, of which
  \<open>H1\<close> is exotic, and three chest pieces, of which \<open>X1\<close> and \<open>X2\<close> are two copies of one
  exotic. Gauntlets, leg armour and class items have no entry.
\<close>

definition H1 :: DimItem where
  "H1 = \<lparr>id_item = ''h1'', hash = 100, isExotic = True\<rparr>"

definition H2 :: DimItem where
  "H2 = \<lparr>id_item = ''h2'', hash = 200, isExotic = False\<rparr>"

definition H3 :: DimItem where
  "H3 = \<lparr>id_item = ''h3'', hash = 300, isExotic = False\<rparr>"

definition X1 :: DimItem where
  "X1 = \<lparr>id_item = ''x1'', hash = 500, isExotic = True\<rparr>"

definition X2 :: DimItem where
  "X2 = \<lparr>id_item = ''x2'', hash = 500, isExotic = True\<rparr>"

definition C3 :: DimItem where
  "C3 = \<lparr>id_item = ''c3'', hash = 600, isExotic = False\<rparr>"

definition sample_items :: ItemsByBucket where
  "sample_items = [Helmet \<mapsto> [H1, H2, H3], ChestArmor \<mapsto> [X1, C3, X2]]"

definition helmetMod :: PluggableInventoryItemDefinition where
  "helmetMod = \<lparr>hash_mod = 1, plug = \<lparr>plugCategoryHash = 11\<rparr>\<rparr>"

definition chestMod :: PluggableInventoryItemDefinition where
  "chestMod = \<lparr>hash_mod = 3, plug = \<lparr>plugCategoryHash = 13\<rparr>\<rparr>"

text \<open>
  Sample values for the imported names. The sample assignment function places every mod on
  every item, except that a helmet \<open>H3\<close> (hash 300) and a chest piece \<open>X1\<close> or \<open>X2\<close>
  (hash 500) take no mod at all.
\<close>

definition sample_externals :: "(unit, unit) externals" where
  "sample_externals =
     \<lparr>LOCKED_EXOTIC_NO_EXOTIC = - 1,
      MIN_LO_ITEM_ENERGY = 7,
      bucketHashToPlugCategoryHash =
        (\<lambda>b. case b of Helmet \<Rightarrow> 11 | Gauntlets \<Rightarrow> 12 | ChestArmor \<Rightarrow> 13
              | LegArmor \<Rightarrow> 14 | ClassArmor \<Rightarrow> 15),
      assignBucketSpecificMods =
        (\<lambda>mw le floor item mods.
           \<lparr>unassigned = (if hash item = 300 \<or> hash item = 500 then mods else [])\<rparr>)\<rparr>"

definition sample_args :: "(unit, unit, unit) filterItems_args" where
  "sample_args =
     \<lparr>defs = Some (),
      items = Some sample_items,
      pinnedItems = Map.empty,
      excludedItems = Map.empty,
      lockedMods = [],
      lockedExoticHash = None,
      lockArmorEnergyType = None,
      assumeArmorMasterwork = None,
      searchFilter = (\<lambda>i. True)\<rparr>"

lemmas sample_defs =
  H1_def H2_def H3_def X1_def X2_def C3_def sample_items_def helmetMod_def chestMod_def
  sample_externals_def sample_args_def

lemmas filter_defs =
  filterItems_def emptyFilteredItems_def LockableBucketHashes_def filterBucket_def
  searchFilteredItems_def excludedAndModsFilteredItems_def unassignedMods_def isExcluded_def
  firstPassFilteredItems_def exotics_def lockedModsForPlugCategoryHash_def lockedModMap_def
  groupBy_def

section \<open>The loop, bucket by bucket\<close>

lemma emptyFilteredItems_at: "emptyFilteredItems b = Some []"
  by (cases b) (simp_all add: emptyFilteredItems_def)

lemma all_buckets_listed: "b \<in> set LockableBucketHashes"
  by (cases b) (simp_all add: LockableBucketHashes_def)

lemma bucketLoop_at:
  "bucketLoop d a its bs acc b =
     (if b \<in> set bs
      then (case its b of Some bucketItems \<Rightarrow> Some (filterBucket d a b bucketItems)
            | None \<Rightarrow> acc b)
      else acc b)"
proof (induction bs arbitrary: acc)
  case Nil
  show ?case by simp
next
  case (Cons c bs)
  show ?case
    by (cases "its c"; cases "c = b") (auto simp: Cons.IH split: option.splits)
qed

lemma filterItems_present:
  assumes "items a = Some its" and "defs a = Some df"
  shows "filterItems d a b =
     Some (case its b of Some bucketItems \<Rightarrow> filterBucket d a b bucketItems | None \<Rightarrow> [])"
  using assms
  by (simp add: filterItems_def bucketLoop_at all_buckets_listed emptyFilteredItems_at
      split: option.splits)

lemma filterItems_absent:
  assumes "items a = None \<or> defs a = None"
  shows "filterItems d a b = Some []"
  using assms
  by (auto simp: filterItems_def emptyFilteredItems_at split: option.splits)

section \<open>The stages of one bucket\<close>

lemma filterBucket_search:
  "filterBucket d a b xs =
     (if filter (searchFilter a) (excludedAndModsFilteredItems d a b xs) \<noteq> []
      then filter (searchFilter a) (excludedAndModsFilteredItems d a b xs)
      else excludedAndModsFilteredItems d a b xs)"
  by (simp add: filterBucket_def searchFilteredItems_def)

lemma set_filterBucket:
  "set (filterBucket d a b xs) \<subseteq> set (excludedAndModsFilteredItems d a b xs)"
  by (auto simp: filterBucket_search)

lemma subseq_filterBucket:
  "subseq (filterBucket d a b xs) (excludedAndModsFilteredItems d a b xs)"
  by (simp add: filterBucket_search)

lemma filterBucket_empty:
  "excludedAndModsFilteredItems d a b xs = [] \<Longrightarrow> filterBucket d a b xs = []"
  by (simp add: filterBucket_search)

lemma filterBucket_singleton:
  "excludedAndModsFilteredItems d a b xs = [x] \<Longrightarrow> filterBucket d a b xs = [x]"
  by (simp add: filterBucket_search)

lemma subseq_excludedAndMods:
  "subseq (excludedAndModsFilteredItems d a b xs) (firstPassFilteredItems d a b xs)"
  by (simp add: excludedAndModsFilteredItems_def)

lemma in_excludedAndMods:
  "x \<in> set (excludedAndModsFilteredItems d a b xs) \<Longrightarrow>
     \<not> isExcluded a b x \<and> unassignedMods d a b x = []"
  by (simp add: excludedAndModsFilteredItems_def)

lemma firstPass_pinned:
  "pinnedItems a b = Some p \<Longrightarrow> firstPassFilteredItems d a b xs = [p]"
  by (simp add: firstPassFilteredItems_def)

lemma firstPass_locked_exotic:
  assumes "pinnedItems a b = None" and "lockedExoticHash a = Some h"
    and "x \<in> set xs" and "hash x = h"
  shows "firstPassFilteredItems d a b xs = filter (\<lambda>i. hash i = h) xs"
proof -
  have same: "exotics a xs = filter (\<lambda>i. hash i = h) xs"
    using assms(2) by (simp add: exotics_def)
  have "x \<in> set (exotics a xs)"
    using assms(3,4) by (simp add: same)
  then have "exotics a xs \<noteq> []"
    by auto
  then show ?thesis
    using assms(1) by (simp add: firstPassFilteredItems_def same)
qed

lemma subseq_firstPass:
  "pinnedItems a b = None \<Longrightarrow> subseq (firstPassFilteredItems d a b xs) xs"
  by (simp add: firstPassFilteredItems_def exotics_def)

lemma count_list_filter:
  "count_list (filter P xs) x = (if P x then count_list xs x else 0)"
  by (induction xs) auto

lemma isExcluded_iff:
  "excludedItems a b = Some ex \<Longrightarrow> isExcluded a b x = (id_item x \<in> id_item ` set ex)"
  by (auto simp: isExcluded_def list_ex_iff)

section \<open>Claims about \<open>filterItems\<close>\<close>

text \<open>
  C1 (as stated, refuted). The claim: a bucket that has a pinned item \<open>P\<close> and an entry in
  the catalog always yields exactly \<open>[P]\<close>, whether or not \<open>P\<close> is excluded or can take the
  locked mods. In the source the pinned item only replaces the first-pass list; the filter
  on excluded items and on unassigned mods runs on it like on any other list. Here helmet
  \<open>H2\<close> is pinned and excluded, and helmet \<open>H3\<close> is pinned while it cannot take the locked
  helmet mod: both times the helmet bucket comes out empty.
\<close>

theorem pinned_item_revalidated_counterexample:
  "pinnedItems (sample_args\<lparr>pinnedItems := [Helmet \<mapsto> H2], excludedItems := [Helmet \<mapsto> [H2]]\<rparr>)
      Helmet = Some H2
   \<and> sample_items Helmet = Some [H1, H2, H3]
   \<and> filterItems sample_externals
        (sample_args\<lparr>pinnedItems := [Helmet \<mapsto> H2], excludedItems := [Helmet \<mapsto> [H2]]\<rparr>)
        Helmet = Some []
   \<and> filterItems sample_externals
        (sample_args\<lparr>pinnedItems := [Helmet \<mapsto> H2], excludedItems := [Helmet \<mapsto> [H2]]\<rparr>)
        Helmet \<noteq> Some [H2]
   \<and> pinnedItems (sample_args\<lparr>pinnedItems := [Helmet \<mapsto> H3], lockedMods := [helmetMod]\<rparr>)
        Helmet = Some H3
   \<and> filterItems sample_externals
        (sample_args\<lparr>pinnedItems := [Helmet \<mapsto> H3], lockedMods := [helmetMod]\<rparr>)
        Helmet = Some []"
  by (simp add: filter_defs sample_defs)

text \<open>
  C1 (amended). For a bucket with a pinned item \<open>P\<close> and an entry in a present catalog
  (manifest present), the first-pass list is exactly \<open>[P]\<close> whatever the locked exotic is,
  and the output is \<open>[P]\<close> when \<open>P\<close> is not excluded and the assignment reports no
  unassigned mod for \<open>P\<close>, whatever the search filter says about \<open>P\<close>; otherwise the
  output is empty.
\<close>

theorem pinned_item_output:
  assumes "items a = Some its" and "defs a = Some df" and "its b = Some bucketItems"
    and "pinnedItems a b = Some P"
  shows "firstPassFilteredItems d a b bucketItems = [P]
    \<and> filterItems d a b =
        Some (if isExcluded a b P \<or> unassignedMods d a b P \<noteq> [] then [] else [P])"
proof -
  have fp: "firstPassFilteredItems d a b bucketItems = [P]"
    using assms(4) by (rule firstPass_pinned)
  have s4: "excludedAndModsFilteredItems d a b bucketItems =
      (if isExcluded a b P \<or> unassignedMods d a b P \<noteq> [] then [] else [P])"
    by (simp add: excludedAndModsFilteredItems_def fp)
  have "filterBucket d a b bucketItems =
      (if isExcluded a b P \<or> unassignedMods d a b P \<noteq> [] then [] else [P])"
  proof (cases "isExcluded a b P \<or> unassignedMods d a b P \<noteq> []")
    case True
    with s4 show ?thesis by (simp add: filterBucket_empty)
  next
    case False
    with s4 show ?thesis by (simp add: filterBucket_singleton)
  qed
  with fp show ?thesis
    by (simp add: filterItems_present [OF assms(1,2)] assms(3))
qed

theorem pinned_item_output_witness:
  "items (sample_args\<lparr>pinnedItems := [Helmet \<mapsto> H2], lockedExoticHash := Some 100,
       searchFilter := (\<lambda>i. False)\<rparr>) = Some sample_items
   \<and> defs (sample_args\<lparr>pinnedItems := [Helmet \<mapsto> H2], lockedExoticHash := Some 100,
       searchFilter := (\<lambda>i. False)\<rparr>) = Some ()
   \<and> sample_items Helmet = Some [H1, H2, H3]
   \<and> pinnedItems (sample_args\<lparr>pinnedItems := [Helmet \<mapsto> H2], lockedExoticHash := Some 100,
       searchFilter := (\<lambda>i. False)\<rparr>) Helmet = Some H2
   \<and> firstPassFilteredItems sample_externals
        (sample_args\<lparr>pinnedItems := [Helmet \<mapsto> H2], lockedExoticHash := Some 100,
           searchFilter := (\<lambda>i. False)\<rparr>) Helmet [H1, H2, H3] = [H2]
   \<and> filterItems sample_externals
        (sample_args\<lparr>pinnedItems := [Helmet \<mapsto> H2], lockedExoticHash := Some 100,
           searchFilter := (\<lambda>i. False)\<rparr>) Helmet = Some [H2]"
proof -
  let ?a = "sample_args\<lparr>pinnedItems := [Helmet \<mapsto> H2], lockedExoticHash := Some 100,
       searchFilter := (\<lambda>i. False)\<rparr>"
  have h1: "items ?a = Some sample_items" by (simp add: sample_args_def)
  have h2: "defs ?a = Some ()" by (simp add: sample_args_def)
  have h3: "sample_items Helmet = Some [H1, H2, H3]" by (simp add: sample_items_def)
  have h4: "pinnedItems ?a Helmet = Some H2" by simp
  have ok: "\<not> (isExcluded ?a Helmet H2 \<or> unassignedMods sample_externals ?a Helmet H2 \<noteq> [])"
    by (simp add: filter_defs sample_defs)
  from pinned_item_output [OF h1 h2 h3 h4, of sample_externals] ok h1 h2 h3 h4
  show ?thesis by simp
qed

text \<open>
  C2. Whatever the input, every bucket of the enumeration is bound in the result, so the
  domain of the result is the whole of \<open>LockableBucketHash\<close>; and when the catalog or the
  manifest is absent, every bucket is bound to the empty list. The model is a total
  function: no branch of \<open>filterItems\<close> raises.
\<close>

theorem filterItems_total:
  "(\<forall>b. \<exists>xs. filterItems d a b = Some xs)
   \<and> dom (filterItems d a) = set LockableBucketHashes
   \<and> set LockableBucketHashes = UNIV
   \<and> (items a = None \<or> defs a = None \<longrightarrow> (\<forall>b. filterItems d a b = Some []))"
proof -
  have bound: "\<exists>xs. filterItems d a b = Some xs" for b
  proof (cases "items a = None \<or> defs a = None")
    case True
    then show ?thesis by (simp add: filterItems_absent)
  next
    case False
    then obtain its df where "items a = Some its" and "defs a = Some df" by auto
    then show ?thesis by (simp add: filterItems_present)
  qed
  have univ: "set LockableBucketHashes = UNIV"
    using all_buckets_listed by auto
  have "dom (filterItems d a) = UNIV"
    using bound by (auto simp: dom_def)
  with bound univ show ?thesis
    by (simp add: filterItems_absent)
qed

theorem filterItems_total_witness:
  "(items (sample_args\<lparr>items := None\<rparr>) = None \<or> defs (sample_args\<lparr>items := None\<rparr>) = None)
   \<and> filterItems sample_externals (sample_args\<lparr>items := None\<rparr>) Helmet = Some []
   \<and> filterItems sample_externals (sample_args\<lparr>items := None\<rparr>) Gauntlets = Some []
   \<and> filterItems sample_externals (sample_args\<lparr>items := None\<rparr>) ChestArmor = Some []
   \<and> filterItems sample_externals (sample_args\<lparr>items := None\<rparr>) LegArmor = Some []
   \<and> filterItems sample_externals (sample_args\<lparr>items := None\<rparr>) ClassArmor = Some []"
proof -
  have h: "items (sample_args\<lparr>items := None\<rparr>) = None \<or> defs (sample_args\<lparr>items := None\<rparr>) = None"
    by simp
  from filterItems_total [of sample_externals "sample_args\<lparr>items := None\<rparr>"] h
  show ?thesis by blast
qed

text \<open>
  C3. For a bucket with an entry in a present catalog, let \<open>S\<close> be the list left by the
  filter on excluded items and unassigned mods. When the search filter keeps an item of
  \<open>S\<close>, the output is \<open>S\<close> filtered by the search filter; when it keeps none, the output is
  \<open>S\<close> itself, so a non-empty \<open>S\<close> never gives an empty output.
\<close>

theorem search_filter_fallback:
  assumes "items a = Some its" and "defs a = Some df" and "its b = Some bucketItems"
  shows "(filter (searchFilter a) (excludedAndModsFilteredItems d a b bucketItems) \<noteq> [] \<longrightarrow>
            filterItems d a b =
              Some (filter (searchFilter a) (excludedAndModsFilteredItems d a b bucketItems)))
    \<and> (filter (searchFilter a) (excludedAndModsFilteredItems d a b bucketItems) = [] \<longrightarrow>
            filterItems d a b = Some (excludedAndModsFilteredItems d a b bucketItems))
    \<and> (excludedAndModsFilteredItems d a b bucketItems \<noteq> [] \<longrightarrow>
            filterItems d a b \<noteq> Some [])"
proof -
  let ?S = "excludedAndModsFilteredItems d a b bucketItems"
  have out: "filterItems d a b = Some (filterBucket d a b bucketItems)"
    by (simp add: filterItems_present [OF assms(1,2)] assms(3))
  have kept: "filter (searchFilter a) ?S \<noteq> [] \<Longrightarrow>
      filterBucket d a b bucketItems = filter (searchFilter a) ?S"
    by (simp add: filterBucket_search)
  have none: "filter (searchFilter a) ?S = [] \<Longrightarrow> filterBucket d a b bucketItems = ?S"
    by (simp add: filterBucket_search)
  have "?S \<noteq> [] \<Longrightarrow> filterBucket d a b bucketItems \<noteq> []"
    using kept none by (cases "filter (searchFilter a) ?S = []") simp_all
  with kept none show ?thesis
    by (simp add: out)
qed

theorem search_filter_fallback_witness:
  "items (sample_args\<lparr>searchFilter := (\<lambda>i. hash i = 200)\<rparr>) = Some sample_items
   \<and> defs (sample_args\<lparr>searchFilter := (\<lambda>i. hash i = 200)\<rparr>) = Some ()
   \<and> sample_items Helmet = Some [H1, H2, H3]
   \<and> excludedAndModsFilteredItems sample_externals
        (sample_args\<lparr>searchFilter := (\<lambda>i. hash i = 200)\<rparr>) Helmet [H1, H2, H3] = [H1, H2, H3]
   \<and> filterItems sample_externals (sample_args\<lparr>searchFilter := (\<lambda>i. hash i = 200)\<rparr>) Helmet
        = Some [H2]
   \<and> items (sample_args\<lparr>searchFilter := (\<lambda>i. False)\<rparr>) = Some sample_items
   \<and> defs (sample_args\<lparr>searchFilter := (\<lambda>i. False)\<rparr>) = Some ()
   \<and> excludedAndModsFilteredItems sample_externals
        (sample_args\<lparr>searchFilter := (\<lambda>i. False)\<rparr>) Helmet [H1, H2, H3] = [H1, H2, H3]
   \<and> filterItems sample_externals (sample_args\<lparr>searchFilter := (\<lambda>i. False)\<rparr>) Helmet
        = Some [H1, H2, H3]"
proof -
  let ?a = "sample_args\<lparr>searchFilter := (\<lambda>i. hash i = 200)\<rparr>"
  let ?n = "sample_args\<lparr>searchFilter := (\<lambda>i. False)\<rparr>"
  have h1: "items ?a = Some sample_items" and h2: "defs ?a = Some ()"
    and n1: "items ?n = Some sample_items" and n2: "defs ?n = Some ()"
    by (simp_all add: sample_args_def)
  have h3: "sample_items Helmet = Some [H1, H2, H3]" by (simp add: sample_items_def)
  have sa: "excludedAndModsFilteredItems sample_externals ?a Helmet [H1, H2, H3] = [H1, H2, H3]"
    by (simp add: filter_defs sample_defs)
  have sn: "excludedAndModsFilteredItems sample_externals ?n Helmet [H1, H2, H3] = [H1, H2, H3]"
    by (simp add: filter_defs sample_defs)
  have fa: "filter (searchFilter ?a) [H1, H2, H3] = [H2]"
    by (simp add: sample_defs)
  from search_filter_fallback [OF h1 h2 h3, of sample_externals]
    search_filter_fallback [OF n1 n2 h3, of sample_externals]
    h1 h2 h3 n1 n2 sa sn fa
  show ?thesis by simp
qed

text \<open>
  C4. An item for which \<open>assignBucketSpecificMods\<close>, called with the energy settings, the
  floor \<open>MIN_LO_ITEM_ENERGY\<close> and the locked mods grouped under the bucket's plug category,
  reports one unassigned mod or more is not in the output of that bucket, whatever else
  holds of it (pinned or not, matching the search filter or not).
\<close>

theorem mod_infeasible_item_not_in_output:
  assumes "1 \<le> length (unassigned (assignBucketSpecificMods d (assumeArmorMasterwork a)
              (lockArmorEnergyType a) (MIN_LO_ITEM_ENERGY d) item
              (lockedModsForPlugCategoryHash d a b)))"
    and "filterItems d a b = Some out"
  shows "item \<notin> set out"
proof (cases "items a = None \<or> defs a = None")
  case True
  then have "filterItems d a b = Some []" by (rule filterItems_absent)
  with assms(2) show ?thesis by simp
next
  case False
  then obtain its df where p: "items a = Some its" "defs a = Some df" by auto
  have bad: "unassignedMods d a b item \<noteq> []"
    using assms(1) by (auto simp: unassignedMods_def)
  show ?thesis
  proof (cases "its b")
    case None
    with assms(2) show ?thesis by (simp add: filterItems_present [OF p])
  next
    case (Some bucketItems)
    then have "out = filterBucket d a b bucketItems"
      using assms(2) by (simp add: filterItems_present [OF p])
    then have "set out \<subseteq> set (excludedAndModsFilteredItems d a b bucketItems)"
      by (simp add: set_filterBucket)
    with bad show ?thesis
      using in_excludedAndMods by blast
  qed
qed

theorem mod_infeasible_item_not_in_output_witness:
  "1 \<le> length (unassigned (assignBucketSpecificMods sample_externals
            (assumeArmorMasterwork (sample_args\<lparr>lockedMods := [helmetMod, chestMod]\<rparr>))
            (lockArmorEnergyType (sample_args\<lparr>lockedMods := [helmetMod, chestMod]\<rparr>))
            (MIN_LO_ITEM_ENERGY sample_externals) H3
            (lockedModsForPlugCategoryHash sample_externals
               (sample_args\<lparr>lockedMods := [helmetMod, chestMod]\<rparr>) Helmet)))
   \<and> filterItems sample_externals (sample_args\<lparr>lockedMods := [helmetMod, chestMod]\<rparr>) Helmet
        = Some [H1, H2]
   \<and> H3 \<notin> set [H1, H2]"
proof -
  let ?a = "sample_args\<lparr>lockedMods := [helmetMod, chestMod]\<rparr>"
  have h1: "1 \<le> length (unassigned (assignBucketSpecificMods sample_externals
            (assumeArmorMasterwork ?a) (lockArmorEnergyType ?a)
            (MIN_LO_ITEM_ENERGY sample_externals) H3
            (lockedModsForPlugCategoryHash sample_externals ?a Helmet)))"
    by (simp add: filter_defs sample_defs)
  have h2: "filterItems sample_externals ?a Helmet = Some [H1, H2]"
    by (simp add: filter_defs sample_defs)
  from mod_infeasible_item_not_in_output [OF h1 h2] h1 h2
  show ?thesis by simp
qed

text \<open>
  C5. In a bucket with no pinned item, when \<open>lockedExoticHash\<close> is the hash \<open>h\<close> and some
  item of the bucket has that hash, the first-pass list is the items of the bucket with
  hash \<open>h\<close>, in catalog order, and each of them occurs in it as often as in the catalog:
  copies are not merged.
\<close>

theorem locked_exotic_first_pass:
  assumes "pinnedItems a b = None" and "lockedExoticHash a = Some h"
    and "\<exists>i \<in> set bucketItems. hash i = h"
  shows "firstPassFilteredItems d a b bucketItems = filter (\<lambda>i. hash i = h) bucketItems
    \<and> (\<forall>i. hash i = h \<longrightarrow>
          count_list (firstPassFilteredItems d a b bucketItems) i = count_list bucketItems i)"
proof -
  from assms(3) obtain x where "x \<in> set bucketItems" and "hash x = h" by auto
  then have "firstPassFilteredItems d a b bucketItems = filter (\<lambda>i. hash i = h) bucketItems"
    using assms(1,2) by (simp add: firstPass_locked_exotic)
  then show ?thesis by (simp add: count_list_filter)
qed

theorem locked_exotic_first_pass_witness:
  "pinnedItems (sample_args\<lparr>lockedExoticHash := Some 500\<rparr>) ChestArmor = None
   \<and> lockedExoticHash (sample_args\<lparr>lockedExoticHash := Some 500\<rparr>) = Some 500
   \<and> X1 \<in> set [X1, C3, X2] \<and> hash X1 = 500
   \<and> firstPassFilteredItems sample_externals (sample_args\<lparr>lockedExoticHash := Some 500\<rparr>)
        ChestArmor [X1, C3, X2] = [X1, X2]"
proof -
  let ?a = "sample_args\<lparr>lockedExoticHash := Some 500\<rparr>"
  have h1: "pinnedItems ?a ChestArmor = None" by (simp add: sample_args_def)
  have h2: "lockedExoticHash ?a = Some 500" by simp
  have h3: "X1 \<in> set [X1, C3, X2]" and h4: "hash X1 = 500" by (simp_all add: X1_def)
  have h5: "\<exists>i \<in> set [X1, C3, X2]. hash i = 500" using h3 h4 by blast
  have f: "filter (\<lambda>i. hash i = 500) [X1, C3, X2] = [X1, X2]"
    by (simp add: sample_defs)
  from locked_exotic_first_pass [OF h1 h2 h5, of sample_externals] f h1 h2 h3 h4
  show ?thesis by simp
qed

text \<open>
  C6. In a bucket with no pinned item, when \<open>lockedExoticHash\<close> is the sentinel
  \<open>LOCKED_EXOTIC_NO_EXOTIC\<close> and no item of the bucket has the sentinel as its hash, the
  first-pass list is the catalog list of the bucket without its exotic items; so neither
  the first-pass list nor the list handed to the search filter holds an exotic item.
\<close>

theorem no_exotic_sentinel_first_pass:
  assumes "pinnedItems a b = None"
    and "lockedExoticHash a = Some (LOCKED_EXOTIC_NO_EXOTIC d)"
    and "\<forall>i \<in> set bucketItems. hash i \<noteq> LOCKED_EXOTIC_NO_EXOTIC d"
  shows "firstPassFilteredItems d a b bucketItems = filter (\<lambda>i. \<not> isExotic i) bucketItems
    \<and> (\<forall>i \<in> set (firstPassFilteredItems d a b bucketItems). \<not> isExotic i)
    \<and> (\<forall>i \<in> set (excludedAndModsFilteredItems d a b bucketItems). \<not> isExotic i)"
proof -
  have "exotics a bucketItems = []"
    using assms(2,3) by (simp add: exotics_def filter_empty_conv)
  then have fp: "firstPassFilteredItems d a b bucketItems
      = filter (\<lambda>i. \<not> isExotic i) bucketItems"
    using assms(1,2) by (simp add: firstPassFilteredItems_def)
  then show ?thesis
    by (simp add: excludedAndModsFilteredItems_def)
qed

theorem no_exotic_sentinel_first_pass_witness:
  "pinnedItems (sample_args\<lparr>lockedExoticHash := Some (- 1)\<rparr>) Helmet = None
   \<and> lockedExoticHash (sample_args\<lparr>lockedExoticHash := Some (- 1)\<rparr>)
        = Some (LOCKED_EXOTIC_NO_EXOTIC sample_externals)
   \<and> hash H1 \<noteq> LOCKED_EXOTIC_NO_EXOTIC sample_externals
   \<and> hash H2 \<noteq> LOCKED_EXOTIC_NO_EXOTIC sample_externals
   \<and> hash H3 \<noteq> LOCKED_EXOTIC_NO_EXOTIC sample_externals
   \<and> isExotic H1
   \<and> firstPassFilteredItems sample_externals (sample_args\<lparr>lockedExoticHash := Some (- 1)\<rparr>)
        Helmet [H1, H2, H3] = [H2, H3]"
proof -
  let ?a = "sample_args\<lparr>lockedExoticHash := Some (- 1)\<rparr>"
  have h1: "pinnedItems ?a Helmet = None" by (simp add: sample_args_def)
  have h2: "lockedExoticHash ?a = Some (LOCKED_EXOTIC_NO_EXOTIC sample_externals)"
    by (simp add: sample_externals_def)
  have h3: "hash H1 \<noteq> LOCKED_EXOTIC_NO_EXOTIC sample_externals"
    "hash H2 \<noteq> LOCKED_EXOTIC_NO_EXOTIC sample_externals"
    "hash H3 \<noteq> LOCKED_EXOTIC_NO_EXOTIC sample_externals"
    by (simp_all add: sample_defs)
  then have h4: "\<forall>i \<in> set [H1, H2, H3]. hash i \<noteq> LOCKED_EXOTIC_NO_EXOTIC sample_externals"
    by simp
  have f: "filter (\<lambda>i. \<not> isExotic i) [H1, H2, H3] = [H2, H3]" and e: "isExotic H1"
    by (simp_all add: sample_defs)
  from no_exotic_sentinel_first_pass [OF h1 h2 h4]
  have "firstPassFilteredItems sample_externals ?a Helmet [H1, H2, H3]
      = filter (\<lambda>i. \<not> isExotic i) [H1, H2, H3]"
    by (rule conjunct1)
  then have c: "firstPassFilteredItems sample_externals ?a Helmet [H1, H2, H3] = [H2, H3]"
    by (simp only: f)
  from h1 h2 h3 e c show ?thesis
    by blast
qed

text \<open>
  C7. Let \<open>lockedExoticHash\<close> be the hash \<open>h\<close> of an exotic of which the bucket holds the
  two copies \<open>X1\<close> and \<open>X2\<close> (in either order, among any other items), with no pinned item,
  \<open>X2\<close> in the bucket's excluded list and \<open>X1\<close> not, and no unassigned mod for either copy.
  Then the output of the bucket is exactly \<open>[X1]\<close>. The search filter plays no part: if it
  keeps \<open>X1\<close> the filtered list is \<open>[X1]\<close>, and if it rejects \<open>X1\<close> the fallback gives
  \<open>[X1]\<close> again.
\<close>

theorem excluded_copy_of_locked_exotic:
  assumes "items a = Some its" and "defs a = Some df" and "its b = Some bucketItems"
    and "pinnedItems a b = None" and "lockedExoticHash a = Some h"
    and "filter (\<lambda>i. hash i = h) bucketItems = [X1, X2]
         \<or> filter (\<lambda>i. hash i = h) bucketItems = [X2, X1]"
    and "excludedItems a b = Some ex" and "X2 \<in> set ex"
    and "id_item X1 \<notin> id_item ` set ex"
    and "unassignedMods d a b X1 = []" and "unassignedMods d a b X2 = []"
  shows "filterItems d a b = Some [X1]"
proof -
  have "X1 \<in> set (filter (\<lambda>i. hash i = h) bucketItems)"
    using assms(6) by (metis list.set_intros(1,2))
  then have "X1 \<in> set bucketItems" and "hash X1 = h"
    by simp_all
  then have fp: "firstPassFilteredItems d a b bucketItems = filter (\<lambda>i. hash i = h) bucketItems"
    using assms(4,5) by (simp add: firstPass_locked_exotic)
  have ex2: "isExcluded a b X2"
    using assms(7,8) by (simp add: isExcluded_iff)
  have ex1: "\<not> isExcluded a b X1"
    using assms(7,9) by (simp add: isExcluded_iff)
  let ?keep = "\<lambda>item. \<not> isExcluded a b item \<and> length (unassignedMods d a b item) = 0"
  have k1: "filter ?keep [X1, X2] = [X1]" and k2: "filter ?keep [X2, X1] = [X1]"
    using ex1 ex2 assms(10) by simp_all
  from assms(6) have "filter ?keep (filter (\<lambda>i. hash i = h) bucketItems) = [X1]"
  proof
    assume e: "filter (\<lambda>i. hash i = h) bucketItems = [X1, X2]"
    show ?thesis unfolding e by (rule k1)
  next
    assume e: "filter (\<lambda>i. hash i = h) bucketItems = [X2, X1]"
    show ?thesis unfolding e by (rule k2)
  qed
  then have "excludedAndModsFilteredItems d a b bucketItems = [X1]"
    by (simp only: excludedAndModsFilteredItems_def fp)
  then have "filterBucket d a b bucketItems = [X1]"
    by (rule filterBucket_singleton)
  then show ?thesis
    by (simp add: filterItems_present [OF assms(1,2)] assms(3))
qed

theorem excluded_copy_of_locked_exotic_witness:
  "items (sample_args\<lparr>lockedExoticHash := Some 500, excludedItems := [ChestArmor \<mapsto> [X2]]\<rparr>)
      = Some sample_items
   \<and> sample_items ChestArmor = Some [X1, C3, X2]
   \<and> filter (\<lambda>i. hash i = 500) [X1, C3, X2] = [X1, X2]
   \<and> id_item X1 \<notin> id_item ` set [X2]
   \<and> filterItems sample_externals
        (sample_args\<lparr>lockedExoticHash := Some 500, excludedItems := [ChestArmor \<mapsto> [X2]]\<rparr>)
        ChestArmor = Some [X1]"
proof -
  let ?a = "sample_args\<lparr>lockedExoticHash := Some 500, excludedItems := [ChestArmor \<mapsto> [X2]]\<rparr>"
  have h1: "items ?a = Some sample_items" and h2: "defs ?a = Some ()"
    and h4: "pinnedItems ?a ChestArmor = None"
    by (simp_all add: sample_args_def)
  have h3: "sample_items ChestArmor = Some [X1, C3, X2]"
    by (simp add: sample_items_def)
  have h5: "lockedExoticHash ?a = Some 500" by simp
  have f: "filter (\<lambda>i. hash i = 500) [X1, C3, X2] = [X1, X2]"
    by (simp add: sample_defs)
  then have h6: "filter (\<lambda>i. hash i = 500) [X1, C3, X2] = [X1, X2]
      \<or> filter (\<lambda>i. hash i = 500) [X1, C3, X2] = [X2, X1]"
    by (rule disjI1)
  have h7: "excludedItems ?a ChestArmor = Some [X2]" by simp
  have h8: "X2 \<in> set [X2]" by simp
  have h9: "id_item X1 \<notin> id_item ` set [X2]" by (simp add: sample_defs)
  have h10: "unassignedMods sample_externals ?a ChestArmor X1 = []"
    and h11: "unassignedMods sample_externals ?a ChestArmor X2 = []"
    by (simp_all add: filter_defs sample_defs)
  from excluded_copy_of_locked_exotic [OF h1 h2 h3 h4 h5 h6 h7 h8 h9 h10 h11] h1 h3 f h9
  show ?thesis by blast
qed

text \<open>
  C8. In a bucket with no pinned item and an entry in the catalog, the output is a
  subsequence of the catalog list of the bucket: the first-pass list is a subsequence of
  the catalog list, the list without excluded items and unassigned mods a subsequence of
  the first-pass list, and the output a subsequence of that, so the items keep their
  catalog order and none is added or repeated.
\<close>

theorem output_is_subseq_of_catalog:
  assumes "pinnedItems a b = None" and "items a = Some its" and "its b = Some bucketItems"
  shows "subseq (firstPassFilteredItems d a b bucketItems) bucketItems
    \<and> subseq (excludedAndModsFilteredItems d a b bucketItems)
         (firstPassFilteredItems d a b bucketItems)
    \<and> subseq (filterBucket d a b bucketItems) (excludedAndModsFilteredItems d a b bucketItems)
    \<and> (\<exists>out. filterItems d a b = Some out \<and> subseq out bucketItems)"
proof -
  have s1: "subseq (firstPassFilteredItems d a b bucketItems) bucketItems"
    using assms(1) by (rule subseq_firstPass)
  have s2: "subseq (excludedAndModsFilteredItems d a b bucketItems)
      (firstPassFilteredItems d a b bucketItems)"
    by (rule subseq_excludedAndMods)
  have s3: "subseq (filterBucket d a b bucketItems)
      (excludedAndModsFilteredItems d a b bucketItems)"
    by (rule subseq_filterBucket)
  have s4: "subseq (filterBucket d a b bucketItems) bucketItems"
    using s3 s2 s1 by (blast intro: subseq_order.trans)
  have "\<exists>out. filterItems d a b = Some out \<and> subseq out bucketItems"
  proof (cases "defs a")
    case None
    then show ?thesis by (simp add: filterItems_absent)
  next
    case (Some df)
    with s4 show ?thesis
      by (simp add: filterItems_present [OF assms(2) Some] assms(3))
  qed
  with s1 s2 s3 show ?thesis by blast
qed

theorem output_is_subseq_of_catalog_witness:
  "pinnedItems (sample_args\<lparr>excludedItems := [Helmet \<mapsto> [H2]]\<rparr>) Helmet = None
   \<and> items (sample_args\<lparr>excludedItems := [Helmet \<mapsto> [H2]]\<rparr>) = Some sample_items
   \<and> sample_items Helmet = Some [H1, H2, H3]
   \<and> filterItems sample_externals (sample_args\<lparr>excludedItems := [Helmet \<mapsto> [H2]]\<rparr>) Helmet
        = Some [H1, H3]
   \<and> subseq [H1, H3] [H1, H2, H3]"
proof -
  let ?a = "sample_args\<lparr>excludedItems := [Helmet \<mapsto> [H2]]\<rparr>"
  have h1: "pinnedItems ?a Helmet = None" and h2: "items ?a = Some sample_items"
    by (simp_all add: sample_args_def)
  have h3: "sample_items Helmet = Some [H1, H2, H3]"
    by (simp add: sample_items_def)
  have v: "filterItems sample_externals ?a Helmet = Some [H1, H3]"
    by (simp add: filter_defs sample_defs)
  from output_is_subseq_of_catalog [OF h1 h2 h3, of sample_externals]
  obtain out where "filterItems sample_externals ?a Helmet = Some out"
    and "subseq out [H1, H2, H3]"
    by blast
  with v have "subseq [H1, H3] [H1, H2, H3]" by simp
  with h1 h2 h3 v show ?thesis by blast
qed

text \<open>
  C9. In a bucket with no pinned item and an entry in the catalog, when
  \<open>lockedExoticHash\<close> is the hash \<open>h\<close> of some item of the bucket and every item of the
  bucket with that hash is excluded or has an unassigned mod, the output of the bucket is
  empty: the other items of the bucket are not taken instead.
\<close>

theorem locked_exotic_all_removed:
  assumes "items a = Some its" and "its b = Some bucketItems"
    and "pinnedItems a b = None" and "lockedExoticHash a = Some h"
    and "\<exists>i \<in> set bucketItems. hash i = h"
    and "\<forall>i \<in> set bucketItems.
           hash i = h \<longrightarrow> isExcluded a b i \<or> unassignedMods d a b i \<noteq> []"
  shows "filterItems d a b = Some []"
proof (cases "defs a")
  case None
  then show ?thesis by (simp add: filterItems_absent)
next
  case (Some df)
  from assms(5) obtain x where "x \<in> set bucketItems" and "hash x = h" by auto
  then have fp: "firstPassFilteredItems d a b bucketItems = filter (\<lambda>i. hash i = h) bucketItems"
    using assms(3,4) by (simp add: firstPass_locked_exotic)
  have "excludedAndModsFilteredItems d a b bucketItems = []"
    using assms(6) by (auto simp: excludedAndModsFilteredItems_def fp filter_empty_conv)
  then have "filterBucket d a b bucketItems = []"
    by (rule filterBucket_empty)
  then show ?thesis
    by (simp add: filterItems_present [OF assms(1) Some] assms(2))
qed

theorem locked_exotic_all_removed_witness:
  "items (sample_args\<lparr>lockedExoticHash := Some 500, lockedMods := [chestMod]\<rparr>)
      = Some sample_items
   \<and> sample_items ChestArmor = Some [X1, C3, X2]
   \<and> X1 \<in> set [X1, C3, X2] \<and> hash X1 = 500 \<and> hash C3 \<noteq> 500
   \<and> unassignedMods sample_externals
        (sample_args\<lparr>lockedExoticHash := Some 500, lockedMods := [chestMod]\<rparr>) ChestArmor C3 = []
   \<and> filterItems sample_externals
        (sample_args\<lparr>lockedExoticHash := Some 500, lockedMods := [chestMod]\<rparr>) ChestArmor
        = Some []"
proof -
  let ?a = "sample_args\<lparr>lockedExoticHash := Some 500, lockedMods := [chestMod]\<rparr>"
  have h1: "items ?a = Some sample_items" and h3: "pinnedItems ?a ChestArmor = None"
    by (simp_all add: sample_args_def)
  have h2: "sample_items ChestArmor = Some [X1, C3, X2]"
    by (simp add: sample_items_def)
  have h4: "lockedExoticHash ?a = Some 500" by simp
  have m: "X1 \<in> set [X1, C3, X2]" and hx: "hash X1 = 500" and hc: "hash C3 \<noteq> 500"
    by (simp_all add: sample_defs)
  then have h5: "\<exists>i \<in> set [X1, C3, X2]. hash i = 500" by blast
  have u1: "unassignedMods sample_externals ?a ChestArmor X1 \<noteq> []"
    and u2: "unassignedMods sample_externals ?a ChestArmor X2 \<noteq> []"
    and u3: "unassignedMods sample_externals ?a ChestArmor C3 = []"
    by (simp_all add: filter_defs sample_defs)
  have h6: "\<forall>i \<in> set [X1, C3, X2]. hash i = 500 \<longrightarrow>
      isExcluded ?a ChestArmor i \<or> unassignedMods sample_externals ?a ChestArmor i \<noteq> []"
    using u1 u2 hc by simp
  from locked_exotic_all_removed [OF h1 h2 h3 h4 h5 h6] h1 h2 m hx hc u3
  show ?thesis by blast
qed

text \<open>
  C10. A bucket with no entry in a present catalog has the empty list as its output, also
  when an item is pinned for it: the test \<open>if (items[bucket])\<close> encloses the whole body of
  the loop, the pinned item included.
\<close>

theorem bucket_absent_from_catalog:
  assumes "items a = Some its" and "its b = None"
  shows "filterItems d a b = Some []"
proof (cases "defs a")
  case None
  then show ?thesis by (simp add: filterItems_absent)
next
  case (Some df)
  then show ?thesis
    by (simp add: filterItems_present [OF assms(1) Some] assms(2))
qed

theorem bucket_absent_from_catalog_witness:
  "items (sample_args\<lparr>pinnedItems := [Gauntlets \<mapsto> H2]\<rparr>) = Some sample_items
   \<and> sample_items Gauntlets = None
   \<and> pinnedItems (sample_args\<lparr>pinnedItems := [Gauntlets \<mapsto> H2]\<rparr>) Gauntlets = Some H2
   \<and> filterItems sample_externals (sample_args\<lparr>pinnedItems := [Gauntlets \<mapsto> H2]\<rparr>) Gauntlets
        = Some []"
proof -
  let ?a = "sample_args\<lparr>pinnedItems := [Gauntlets \<mapsto> H2]\<rparr>"
  have h1: "items ?a = Some sample_items" by (simp add: sample_args_def)
  have h2: "sample_items Gauntlets = None" by (simp add: sample_items_def)
  have p: "pinnedItems ?a Gauntlets = Some H2" by simp
  from bucket_absent_from_catalog [OF h1 h2, of sample_externals] h1 h2 p
  show ?thesis by blast
qed

end
